theory Spec2Isabelle
  imports Complex_Main
begin

section \<open>Expression labels and the dominant expression of a face\<close>

text \<open>
  The seven keys of the counts object
  \<^verbatim>\<open>{ neutral: 0, happy: 0, sad: 0, angry: 0, fearful: 0, disgusted: 0, surprised: 0 }\<close>.
\<close>

datatype label = neutral | happy | sad | angry | fearful | disgusted | surprised

text \<open>
  \<^verbatim>\<open>detection.expressions\<close> is an object of the detection library. It is modelled by
  the list of its own enumerable properties, in the order in which \<^verbatim>\<open>Object.keys\<close>
  enumerates them; that order is decided by the library, so it is an input here.
  Probabilities are numbers that compare as reals (no NaN).
\<close>

type_synonym expressions = "(label \<times> real) list"

datatype js_error = TypeError

definition keys :: "expressions \<Rightarrow> label list" where
  \<comment> \<open>\<^verbatim>\<open>Object.keys(expressions)\<close>\<close>
  "keys ex = map fst ex"

definition getProp :: "expressions \<Rightarrow> label \<Rightarrow> real option" where
  \<comment> \<open>\<^verbatim>\<open>expressions[a]\<close>; \<open>None\<close> is \<^verbatim>\<open>undefined\<close>\<close>
  "getProp ex a = map_of ex a"

fun gt_js :: "real option \<Rightarrow> real option \<Rightarrow> bool" where
  \<comment> \<open>\<^verbatim>\<open>x > y\<close>; a comparison with \<^verbatim>\<open>undefined\<close> is false\<close>
  "gt_js (Some x) (Some y) = (x > y)"
| "gt_js _ _ = False"

fun reduce :: "('a \<Rightarrow> 'a \<Rightarrow> 'a) \<Rightarrow> 'a list \<Rightarrow> js_error + 'a" where
  \<comment> \<open>\<^verbatim>\<open>Array.prototype.reduce\<close> without an initial value: the first element starts
      the accumulator, and an empty array raises a TypeError\<close>
  "reduce f [] = Inl TypeError"
| "reduce f (x # xs) = Inr (foldl f x xs)"

definition dominantExpression :: "expressions \<Rightarrow> js_error + label" where
  \<comment> \<open>\<^verbatim>\<open>Object.keys(expressions).reduce((a, b) => expressions[a] > expressions[b] ? a : b)\<close>\<close>
  "dominantExpression ex =
     reduce (\<lambda>a b. if gt_js (getProp ex a) (getProp ex b) then a else b) (keys ex)"

section \<open>The expression counts\<close>

text \<open>
  The counts object always has the seven keys, so it is a function of the label. A count
  starts at 0 and changes only by \<^verbatim>\<open>++\<close>; it is modelled as a natural number (the
  precision limit of a JavaScript number, above \<open>2 ^ 53\<close>, is out of reach of a counter
  that grows by a few units every 100 ms).
\<close>

type_synonym counts = "label \<Rightarrow> nat"

definition zeroCounts :: counts where
  \<comment> \<open>the object literal with all seven counts 0 (initial state and reset value)\<close>
  "zeroCounts = (\<lambda>_. 0)"

definition increment :: "label \<Rightarrow> counts \<Rightarrow> counts" where
  \<comment> \<open>\<^verbatim>\<open>newCounts[dominantExpression]++\<close>\<close>
  "increment l c = c(l := c l + 1)"

definition count_keys :: "label list" where
  \<comment> \<open>the keys of the counts object\<close>
  "count_keys = [neutral, happy, sad, angry, fearful, disgusted, surprised]"

record detection =
  expressions :: "expressions option"  \<comment> \<open>\<open>None\<close>: the property is absent (falsy)\<close>

fun forEach_count :: "detection list \<Rightarrow> counts \<Rightarrow> js_error + counts" where
  \<comment> \<open>the body of \<^verbatim>\<open>resizedDetections.forEach(detection => ...)\<close> on \<^verbatim>\<open>newCounts\<close>\<close>
  "forEach_count [] c = Inr c"
| "forEach_count (d # ds) c =
     (case expressions d of
        None \<Rightarrow> forEach_count ds c
      | Some ex \<Rightarrow>
          (case dominantExpression ex of
             Inl e \<Rightarrow> Inl e
           | Inr l \<Rightarrow> forEach_count ds (increment l c)))"

definition updateCounts :: "detection list \<Rightarrow> counts \<Rightarrow> js_error + counts" where
  \<comment> \<open>the updater passed to \<^verbatim>\<open>setExpressionCounts\<close>: copy, loop, return the copy\<close>
  "updateCounts ds prevCounts = forEach_count ds prevCounts"

section \<open>Platform objects\<close>

text \<open>
  A \<^verbatim>\<open>Blob\<close> is its content and its \<^verbatim>\<open>type\<close>; \<^verbatim>\<open>new Blob(parts, {type})\<close> concatenates
  the parts in order.
\<close>

record blob =
  bytes :: "nat list"
  btype :: string



text \<open>
  A \<^verbatim>\<open>MediaRecorder\<close>. The constructor keeps the options object it was given; the
  platform reads \<^verbatim>\<open>mimeType\<close> from it. The interval at which the platform delivers
  \<^verbatim>\<open>dataavailable\<close> events during a recording is the argument of \<^verbatim>\<open>start(timeslice)\<close>:
  \<open>start_timeslice\<close> is that argument, \<open>None\<close> when \<^verbatim>\<open>start()\<close> was called without one
  (the data is then delivered when the recorder stops).
\<close>

record MediaRecorder =
  options_mimeType :: string
  options_timeslice :: "nat option"
  state :: string
  start_timeslice :: "nat option"

definition new_MediaRecorder :: "string \<Rightarrow> nat option \<Rightarrow> MediaRecorder" where
  \<comment> \<open>\<^verbatim>\<open>new MediaRecorder(stream, { mimeType, timeslice })\<close>, when it does not throw\<close>
  "new_MediaRecorder mt ts =
     \<lparr>options_mimeType = mt, options_timeslice = ts, state = ''inactive'',
      start_timeslice = None\<rparr>"

definition MediaRecorder_start :: "nat option \<Rightarrow> MediaRecorder \<Rightarrow> MediaRecorder" where
  \<comment> \<open>\<^verbatim>\<open>recorder.start(timeslice)\<close>\<close>
  "MediaRecorder_start ts r = r\<lparr>state := ''recording'', start_timeslice := ts\<rparr>"

definition MediaRecorder_stop :: "MediaRecorder \<Rightarrow> MediaRecorder" where
  \<comment> \<open>\<^verbatim>\<open>recorder.stop()\<close>; the \<^verbatim>\<open>dataavailable\<close> and \<^verbatim>\<open>stop\<close> events come later\<close>
  "MediaRecorder_stop r = r\<lparr>state := ''inactive''\<rparr>"

record dom_exception =
  name :: string
  message :: string

record video =
  paused :: bool
  ended :: bool

text \<open>Calls into the platform and the detection library, in the order they are made.\<close>

datatype effect =
    Play | CaptureStream
  | ClearRect | Save | Scale | Translate | DrawImage | Restore
  | DetectAllFaces | ResizeResults
  | DrawDetections | DrawFaceLandmarks | DrawFaceExpressions
  | ClearInterval
  | CreateElement string | SetHref string | SetDownload string
  | AppendChild | Click | RemoveChild
  | RevokeObjectURL string

fun string_of_nat :: "nat \<Rightarrow> string" where
  \<comment> \<open>the decimal digits of a number, as a template literal renders it\<close>
  "string_of_nat n =
     (if n < 10 then [''0123456789'' ! n]
      else string_of_nat (n div 10) @ [''0123456789'' ! (n mod 10)])"

declare string_of_nat.simps [simp del]

section \<open>The state of the component\<close>

text \<open>
  The refs and the \<^verbatim>\<open>useState\<close> variables of \<^verbatim>\<open>App\<close>, followed by the part of the
  platform the handlers act on: the recorders constructed so far (a recorder is named by
  its index), the pending 200 ms timers (each holds the recorder of its closure), the
  object URLs that are registered, the stream of the video element, the log of calls,
  and the number of \<^verbatim>\<open>detectAllFaces\<close> calls that have not resolved yet.
  A ref is \<open>True\<close> when its element is mounted. The empty string is \<open>[]\<close>.
\<close>

record app =
  videoRef :: bool
  canvasRef :: bool
  recordedChunksRef :: "blob list"
  mediaRecorder :: "nat option"
  recordedChunks :: "blob list"
  recording :: bool
  videoUrl :: string
  modelsLoaded :: bool
  error :: string
  isCameraReady :: bool
  cameraPermissionStatus :: string
  expressionCounts :: counts
  recorders :: "MediaRecorder list"
  timers :: "nat list"
  objectURLs :: "(string \<times> blob) list"
  nextURL :: nat
  srcObject :: "nat option"
  effects :: "effect list"
  pending :: nat

definition initial :: app where
  \<comment> \<open>the initial values of the hooks, with both elements mounted\<close>
  "initial =
     \<lparr>videoRef = True, canvasRef = True, recordedChunksRef = [], mediaRecorder = None,
      recordedChunks = [], recording = False, videoUrl = [], modelsLoaded = False,
      error = [], isCameraReady = False, cameraPermissionStatus = ''unknown'',
      expressionCounts = zeroCounts, recorders = [], timers = [], objectURLs = [],
      nextURL = 0, srcObject = None, effects = [], pending = 0\<rparr>"


definition revokeObjectURL :: "string \<Rightarrow> app \<Rightarrow> app" where
  \<comment> \<open>\<^verbatim>\<open>URL.revokeObjectURL(url)\<close>\<close>
  "revokeObjectURL url s =
     s\<lparr>objectURLs := filter (\<lambda>(u, b). u \<noteq> url) (objectURLs s),
       effects := effects s @ [RevokeObjectURL url]\<rparr>"

section \<open>Camera access\<close>

definition startWebcam :: "dom_exception + nat \<Rightarrow> app \<Rightarrow> app" where
  \<comment> \<open>the first argument is the outcome of \<^verbatim>\<open>getUserMedia\<close>: the exception it rejects
      with, or the stream\<close>
  "startWebcam r s =
     (let s0 = s\<lparr>error := []\<rparr> in
      case r of
        Inr stream \<Rightarrow>
          if videoRef s0
          then s0\<lparr>srcObject := Some stream, effects := effects s0 @ [Play],
                  isCameraReady := True, cameraPermissionStatus := ''granted''\<rparr>
          else s0
      | Inl err \<Rightarrow>
          (let s1 = s0\<lparr>isCameraReady := False, cameraPermissionStatus := ''denied''\<rparr> in
           if name err = ''NotAllowedError''
           then s1\<lparr>error := ''Camera access denied. Please enable camera permissions in your browser settings.''\<rparr>
           else if name err = ''NotFoundError''
           then s1\<lparr>error := ''No camera found. Please ensure a camera is connected and working.''\<rparr>
           else if name err = ''NotReadableError''
           then s1\<lparr>error := ''Camera is already in use or not accessible. Please close other applications using the camera.''\<rparr>
           else s1\<lparr>error := ''Failed to access webcam: '' @ message err @ ''.''\<rparr>))"

text \<open>
  The catch block tells four kinds of failure apart by \<^verbatim>\<open>err.name\<close>, in this order.
\<close>

datatype failure_class = permission_denied | device_not_found | device_unavailable | other

definition failure_class_of :: "dom_exception \<Rightarrow> failure_class" where
  "failure_class_of err =
     (if name err = ''NotAllowedError'' then permission_denied
      else if name err = ''NotFoundError'' then device_not_found
      else if name err = ''NotReadableError'' then device_unavailable
      else other)"

section \<open>The annotation tick\<close>

text \<open>
  The callback of \<^verbatim>\<open>setInterval\<close> is an async function. \<open>tick_begin\<close> is what it does
  up to its \<^verbatim>\<open>await\<close>, where the detection call has been issued; \<open>tick_resume\<close> is its
  continuation, run when that call resolves with the detections. The platform may run
  other callbacks in between. \<^verbatim>\<open>resizeResults\<close> rescales the geometry of the detections
  and keeps their \<^verbatim>\<open>expressions\<close>. The two variants of the component have the same
  callback up to the drawing of the detections; the update of the counts that follows
  is the one of the variant with the expression statistics.
\<close>

definition tick_begin :: "video \<Rightarrow> app \<Rightarrow> app" where
  "tick_begin v s =
     (if \<not> paused v \<and> \<not> ended v
      then s\<lparr>effects := effects s @
                 [ClearRect, Save, Scale, Translate, DrawImage, Restore, DetectAllFaces],
              pending := pending s + 1\<rparr>
      else s\<lparr>effects := effects s @ [ClearInterval]\<rparr>)"

definition tick_resume :: "detection list \<Rightarrow> app \<Rightarrow> js_error + app" where
  "tick_resume resizedDetections s =
     (let s1 = s\<lparr>pending := pending s - 1,
                  effects := effects s @
                    [ResizeResults, DrawDetections, DrawFaceLandmarks, DrawFaceExpressions]\<rparr>
      in if length resizedDetections > 0
         then (case updateCounts resizedDetections (expressionCounts s1) of
                 Inl e \<Rightarrow> Inl e
               | Inr newCounts \<Rightarrow> Inr (s1\<lparr>expressionCounts := newCounts\<rparr>))
         else Inr s1)"

definition tick :: "video \<Rightarrow> detection list \<Rightarrow> app \<Rightarrow> js_error + app" where
  \<comment> \<open>one whole run of the callback, the detection resolving with \<open>ds\<close>\<close>
  "tick v ds s =
     (if \<not> paused v \<and> \<not> ended v then tick_resume ds (tick_begin v s)
      else Inr (tick_begin v s))"

definition resetExpressionCounts :: "app \<Rightarrow> app" where
  "resetExpressionCounts s = s\<lparr>expressionCounts := zeroCounts\<rparr>"

section \<open>Recording\<close>

definition possibleMimeTypes :: "string list" where
  "possibleMimeTypes =
     [''video/webm; codecs=vp9,opus'',
      ''video/webm; codecs=vp8,opus'',
      ''video/webm; codecs=vp9'',
      ''video/webm; codecs=vp8'',
      ''video/webm'',
      ''video/mp4; codecs=avc1'']"

fun for_of_types :: "(string \<Rightarrow> bool) \<Rightarrow> string list \<Rightarrow> string \<Rightarrow> string" where
  \<comment> \<open>the \<^verbatim>\<open>for (const type of possibleMimeTypes)\<close> loop with its \<^verbatim>\<open>break\<close>; the third
      argument is \<^verbatim>\<open>supportedMimeType\<close>\<close>
  "for_of_types isTypeSupported [] supportedMimeType = supportedMimeType"
| "for_of_types isTypeSupported (t # ts) supportedMimeType =
     (if isTypeSupported t then t else for_of_types isTypeSupported ts supportedMimeType)"

definition startRecording :: "(string \<Rightarrow> bool) \<Rightarrow> (string \<Rightarrow> string option) \<Rightarrow> app \<Rightarrow> app" where
  \<comment> \<open>\<open>isTypeSupported\<close> is \<^verbatim>\<open>MediaRecorder.isTypeSupported\<close>; \<open>throws mt\<close> is the message
      of the exception the constructor throws for the MIME type \<open>mt\<close>, \<open>None\<close> when it
      constructs the recorder. An empty string is falsy.\<close>
  "startRecording isTypeSupported throws s =
     (if \<not> videoRef s \<or> \<not> canvasRef s \<or> \<not> isCameraReady s
      then s\<lparr>error := ''Camera not ready or models not loaded. Please ensure camera access and models are loaded.''\<rparr>
      else
        let s1 = s\<lparr>effects := effects s @ [CaptureStream]\<rparr>;
            supportedMimeType = for_of_types isTypeSupported possibleMimeTypes []
        in if supportedMimeType = []
           then s1\<lparr>error := ''Your browser does not support any common video recording codecs. Try updating your browser or using a different one.''\<rparr>
           else
             (case throws supportedMimeType of
                Some msg \<Rightarrow>
                  s1\<lparr>error := ''Failed to create video recorder: '' @ msg @
                                ''. Try a different browser or check codec support.''\<rparr>
              | None \<Rightarrow>
                  s1\<lparr>recorders := recorders s1 @ [new_MediaRecorder supportedMimeType (Some 2000)],
                     recordedChunksRef := [],
                     recordedChunks := [],
                     timers := timers s1 @ [length (recorders s1)]\<rparr>))"

definition timeout_start :: "nat \<Rightarrow> app \<Rightarrow> app" where
  \<comment> \<open>the callback of \<^verbatim>\<open>setTimeout(..., 200)\<close> whose closure holds recorder \<open>r\<close>\<close>
  "timeout_start r s =
     (if r \<in> set (timers s) \<and> r < length (recorders s)
      then
        let s1 = s\<lparr>timers := remove1 r (timers s)\<rparr>
        in if state (recorders s1 ! r) = ''inactive''
           then s1\<lparr>recorders := (recorders s1)[r := MediaRecorder_start None (recorders s1 ! r)],
                   mediaRecorder := Some r,
                   recording := True,
                   videoUrl := []\<rparr>
           else s1
      else s)"


definition onstart :: "nat \<Rightarrow> app \<Rightarrow> app" where
  "onstart r s = (if r < length (recorders s) then s\<lparr>error := []\<rparr> else s)"



definition stopRecording :: "app \<Rightarrow> app" where
  "stopRecording s =
     (case mediaRecorder s of
        Some r \<Rightarrow>
          if recording s \<and> r < length (recorders s)
          then s\<lparr>recorders := (recorders s)[r := MediaRecorder_stop (recorders s ! r)],
                 recording := False\<rparr>
          else s
      | None \<Rightarrow> s)"

text \<open>
  The buttons: a click reaches the handler only when the button is rendered and not
  \<^verbatim>\<open>disabled\<close>.
\<close>

definition click_startRecording :: "(string \<Rightarrow> bool) \<Rightarrow> (string \<Rightarrow> string option) \<Rightarrow> app \<Rightarrow> app" where
  \<comment> \<open>\<^verbatim>\<open>disabled={recording || !modelsLoaded || !isCameraReady}\<close>\<close>
  "click_startRecording isTypeSupported throws s =
     (if recording s \<or> \<not> modelsLoaded s \<or> \<not> isCameraReady s then s
      else startRecording isTypeSupported throws s)"

definition click_stopRecording :: "app \<Rightarrow> app" where
  \<comment> \<open>\<^verbatim>\<open>disabled={!recording}\<close>\<close>
  "click_stopRecording s = (if \<not> recording s then s else stopRecording s)"

section \<open>Download\<close>

definition downloadVideo :: "nat \<Rightarrow> app \<Rightarrow> app" where
  \<comment> \<open>the variant with the expression statistics; the first argument is \<^verbatim>\<open>Date.now()\<close>\<close>
  "downloadVideo now s =
     (if videoUrl s \<noteq> []
      then
        let s1 = s\<lparr>effects := effects s @
                     [CreateElement ''a'',
                      SetHref (videoUrl s),
                      SetDownload (''face-tracking-video-'' @ string_of_nat now @ ''.webm''),
                      AppendChild,
                      Click,
                      RemoveChild]\<rparr>;
            s2 = revokeObjectURL (videoUrl s) s1
        in s2\<lparr>videoUrl := []\<rparr>
      else s)"

definition downloadVideo_page :: "nat \<Rightarrow> app \<Rightarrow> app" where
  \<comment> \<open>\<^verbatim>\<open>downloadVideo\<close> of \<^verbatim>\<open>src/app/page.js\<close>\<close>
  "downloadVideo_page now s =
     (if videoUrl s \<noteq> []
      then
        let s1 = s\<lparr>effects := effects s @
                     [CreateElement ''a'',
                      SetHref (videoUrl s),
                      SetDownload (''face-tracking-video-'' @ string_of_nat now @ ''.webm''),
                      AppendChild,
                      RemoveChild]\<rparr>;
            s2 = revokeObjectURL (videoUrl s) s1
        in s2\<lparr>videoUrl := []\<rparr>
      else s)"

section \<open>Dominant expression: the selected label\<close>

text \<open>
  The reducer keeps the accumulator only when its probability is strictly greater, so
  the fold over a first key \<open>a\<close> and the remaining keys ends on an entry that no earlier
  entry exceeds and that every later entry stays strictly below.
\<close>

lemma foldl_dominant:
  assumes "\<forall>(k, q) \<in> set (a # rest). map_of ex k = Some q"
  shows "\<exists>pre l p post. a # rest = pre @ (l, p) # post \<and>
     foldl (\<lambda>a b. if gt_js (getProp ex a) (getProp ex b) then a else b)
       (fst a) (map fst rest) = l \<and>
     (\<forall>(k, q) \<in> set pre. q \<le> p) \<and> (\<forall>(k, q) \<in> set post. q < p)"
  using assms
proof (induction rest rule: rev_induct)
  case Nil
  show ?case by (cases a) (auto intro: exI[of _ "[]"])
next
  case (snoc x xs)
  let ?f = "\<lambda>a b. if gt_js (getProp ex a) (getProp ex b) then a else b"
  from snoc obtain pre l p post where d: "a # xs = pre @ (l, p) # post"
    and f: "foldl ?f (fst a) (map fst xs) = l"
    and le: "\<forall>(k, q) \<in> set pre. q \<le> p" and lt: "\<forall>(k, q) \<in> set post. q < p"
    by auto
  obtain k q where x: "x = (k, q)" by (cases x)
  have "(l, p) \<in> set (a # xs)" using d by simp
  then have pl: "getProp ex l = Some p" using snoc.prems by (auto simp: getProp_def)
  have pk: "getProp ex k = Some q" using snoc.prems x by (auto simp: getProp_def)
  show ?case
  proof (cases "p > q")
    case True
    have "a # xs @ [x] = pre @ (l, p) # (post @ [x])" using d by simp
    moreover have "foldl ?f (fst a) (map fst (xs @ [x])) = l" using f True x pl pk by simp
    moreover have "\<forall>(k, q) \<in> set (post @ [x]). q < p" using lt True x by auto
    ultimately show ?thesis using le by blast
  next
    case False
    have "a # xs @ [x] = (pre @ (l, p) # post) @ (k, q) # []" using d x by simp
    moreover have "foldl ?f (fst a) (map fst (xs @ [x])) = k" using f False x pl pk by simp
    moreover have "\<forall>(k', q') \<in> set (pre @ (l, p) # post). q' \<le> q"
      using le lt False by fastforce
    moreover have "\<forall>(k', q') \<in> set []. q' < q" by simp
    ultimately show ?thesis by blast
  qed
qed

text \<open>
  C1 (as amended). For a non-empty expression object (its keys are distinct), the
  selected label has the maximum probability: no entry before it in key order exceeds
  it, and every entry after it is strictly smaller. Among labels tied for the maximum
  the selected one is therefore the last in key order.
\<close>

theorem dominantExpression_last_maximum:
  assumes "ex \<noteq> []" and "distinct (map fst ex)"
  shows "\<exists>pre l p post. ex = pre @ (l, p) # post \<and> dominantExpression ex = Inr l \<and>
     (\<forall>(k, q) \<in> set pre. q \<le> p) \<and> (\<forall>(k, q) \<in> set post. q < p)"
proof -
  obtain a rest where ex: "ex = a # rest" using assms(1) by (cases ex) auto
  have "\<forall>(k, q) \<in> set (a # rest). map_of ex k = Some q"
    using assms(2) ex by (auto simp del: map_of.simps distinct.simps)
  from foldl_dominant[OF this] show ?thesis
    unfolding dominantExpression_def keys_def ex by simp
qed

text \<open>
  The theorem at an object in canonical key order where \<open>happy\<close> and \<open>sad\<close> tie for the
  maximum: the later one, \<open>sad\<close>, is selected.
\<close>

theorem dominantExpression_last_maximum_witness:
  "[(neutral, 1/10), (happy, 2/5), (sad, 2/5), (angry, 1/10 :: real)] \<noteq> [] \<and>
   distinct (map fst [(neutral, 1/10), (happy, 2/5), (sad, 2/5), (angry, 1/10 :: real)]) \<and>
   dominantExpression [(neutral, 1/10), (happy, 2/5), (sad, 2/5), (angry, 1/10)] = Inr sad"
  using dominantExpression_last_maximum
    [of "[(neutral, 1/10), (happy, 2/5), (sad, 2/5), (angry, 1/10)]"]
  by (simp add: dominantExpression_def keys_def getProp_def)

text \<open>
  C1 as stated fails. With all seven labels in canonical order and \<open>neutral\<close> and \<open>happy\<close>
  tied for the maximum, the selected label is \<open>happy\<close>, not the earlier \<open>neutral\<close>.
\<close>

theorem dominantExpression_tie_counterexample:
  "dominantExpression
     [(neutral, 2/5), (happy, 2/5), (sad, 1/20), (angry, 1/20), (fearful, 1/20),
      (disgusted, 1/40), (surprised, 1/40)] = Inr happy \<and>
   dominantExpression
     [(neutral, 2/5), (happy, 2/5), (sad, 1/20), (angry, 1/20), (fearful, 1/20),
      (disgusted, 1/40), (surprised, 1/40)] \<noteq> Inr neutral"
  by (simp add: dominantExpression_def keys_def getProp_def)

section \<open>The counts under increments and reset\<close>

lemma fold_increment_count:
  "fold increment ls c l = c l + count_list ls l"
  by (induction ls arbitrary: c) (simp_all add: increment_def)

text \<open>
  C2. Applying the increments of a sequence of labels \<open>ls\<close> to any counts \<open>c\<close> leaves
  each label at its starting count plus the number of its occurrences in \<open>ls\<close>; and
  after a reset every label's count is 0, whatever the state was.
\<close>

theorem counts_increment_reset:
  "fold increment ls c l = c l + count_list ls l \<and>
   expressionCounts (resetExpressionCounts s) l' = 0"
  by (simp add: fold_increment_count resetExpressionCounts_def zeroCounts_def)

section \<open>One increment per detected face\<close>

lemma sum_increment:
  "sum_list (map (increment l c) count_keys) = sum_list (map c count_keys) + 1"
  by (cases l) (simp_all add: increment_def count_keys_def)

lemma sum_fold_increment:
  "sum_list (map (fold increment ls c) count_keys) = sum_list (map c count_keys) + length ls"
  by (induction ls arbitrary: c) (simp_all add: sum_increment)

lemma dominantExpression_nonempty:
  "ex \<noteq> [] \<Longrightarrow> \<exists>l. dominantExpression ex = Inr l"
  by (cases ex) (simp_all add: dominantExpression_def keys_def)

text \<open>
  When every detection carries a non-empty expression object, the loop raises nothing
  and applies one increment per detection, in order, each to the dominant expression
  of its detection.
\<close>

lemma forEach_count_increments:
  assumes "\<forall>d \<in> set ds. \<exists>ex. expressions d = Some ex \<and> ex \<noteq> []"
  shows "\<exists>ls. list_all2 (\<lambda>d l. \<exists>ex. expressions d = Some ex \<and> dominantExpression ex = Inr l) ds ls \<and>
           forEach_count ds c = Inr (fold increment ls c)"
  using assms
proof (induction ds arbitrary: c)
  case Nil
  then show ?case by simp
next
  case (Cons d ds)
  from Cons.prems obtain ex where ex: "expressions d = Some ex" "ex \<noteq> []" by auto
  from dominantExpression_nonempty[OF ex(2)] obtain l where l: "dominantExpression ex = Inr l"
    by blast
  have "\<forall>d \<in> set ds. \<exists>ex. expressions d = Some ex \<and> ex \<noteq> []" using Cons.prems by simp
  from Cons.IH[OF this, of "increment l c"] obtain ls where ls:
    "list_all2 (\<lambda>d l. \<exists>ex. expressions d = Some ex \<and> dominantExpression ex = Inr l) ds ls"
    "forEach_count ds (increment l c) = Inr (fold increment ls (increment l c))"
    by blast
  have "list_all2 (\<lambda>d l. \<exists>ex. expressions d = Some ex \<and> dominantExpression ex = Inr l)
          (d # ds) (l # ls)"
    using ex l ls(1) by simp
  moreover have "forEach_count (d # ds) c = Inr (fold increment (l # ls) c)"
    using ex l ls(2) by simp
  ultimately show ?case by blast
qed

lemma tick_playing:
  assumes "\<not> paused v" and "\<not> ended v"
    and "forEach_count ds (expressionCounts s) = Inr c'"
  shows "\<exists>s'. tick v ds s = Inr s' \<and> expressionCounts s' = c'"
proof (cases "ds = []")
  case True
  with assms show ?thesis
    by (simp add: tick_def tick_resume_def tick_begin_def Let_def)
next
  case False
  with assms show ?thesis
    by (simp add: tick_def tick_resume_def tick_begin_def Let_def updateCounts_def)
qed

text \<open>
  C8. On a tick of a video that is neither paused nor ended, whose detection resolves
  with the detections \<open>ds\<close> (each with its expression object, as the detection chain
  \<^verbatim>\<open>withFaceExpressions\<close> delivers them), the tick completes and the new counts are the
  old counts after one increment per detection, in order: \<open>ls\<close> lists the dominant
  expression of each detection. Each label grows by the number of detections it
  dominates, and the counts grow by \<open>length ds\<close> in total.
\<close>

theorem tick_one_increment_per_face:
  assumes "\<not> paused v" and "\<not> ended v"
    and "\<forall>d \<in> set ds. \<exists>ex. expressions d = Some ex \<and> ex \<noteq> []"
  shows "\<exists>s' ls. tick v ds s = Inr s' \<and>
     list_all2 (\<lambda>d l. \<exists>ex. expressions d = Some ex \<and> dominantExpression ex = Inr l) ds ls \<and>
     expressionCounts s' = fold increment ls (expressionCounts s) \<and>
     (\<forall>l. expressionCounts s' l = expressionCounts s l + count_list ls l) \<and>
     sum_list (map (expressionCounts s') count_keys) =
       sum_list (map (expressionCounts s) count_keys) + length ds"
proof -
  from forEach_count_increments[OF assms(3), of "expressionCounts s"] obtain ls where ls:
    "list_all2 (\<lambda>d l. \<exists>ex. expressions d = Some ex \<and> dominantExpression ex = Inr l) ds ls"
    "forEach_count ds (expressionCounts s) = Inr (fold increment ls (expressionCounts s))"
    by blast
  have len: "length ls = length ds" using ls(1) by (simp add: list_all2_lengthD)
  from tick_playing[OF assms(1,2) ls(2)] obtain s' where s':
    "tick v ds s = Inr s'" "expressionCounts s' = fold increment ls (expressionCounts s)"
    by blast
  have a: "\<forall>l. expressionCounts s' l = expressionCounts s l + count_list ls l"
    unfolding s'(2) by (simp add: fold_increment_count)
  have b: "sum_list (map (expressionCounts s') count_keys) =
       sum_list (map (expressionCounts s) count_keys) + length ds"
    unfolding s'(2) by (simp add: sum_fold_increment len)
  from s' ls(1) a b show ?thesis by blast
qed

text \<open>
  The theorem on a tick with two faces, one dominated by \<open>happy\<close> and one by \<open>neutral\<close>,
  from the initial state: two increments, one for each of the two labels.
\<close>

theorem tick_one_increment_per_face_witness:
  "\<not> paused \<lparr>paused = False, ended = False\<rparr> \<and> \<not> ended \<lparr>paused = False, ended = False\<rparr> \<and>
   (case tick \<lparr>paused = False, ended = False\<rparr>
      [\<lparr>expressions = Some [(neutral, 1/10), (happy, 4/5), (sad, 1/10)]\<rparr>,
       \<lparr>expressions = Some [(neutral, 7/10), (happy, 1/5), (sad, 1/10)]\<rparr>] initial of
      Inl e \<Rightarrow> False
    | Inr s' \<Rightarrow> expressionCounts s' neutral = 1 \<and> expressionCounts s' happy = 1 \<and>
        expressionCounts s' sad = 0 \<and> sum_list (map (expressionCounts s') count_keys) = 2)"
proof -
  let ?v = "\<lparr>paused = False, ended = False\<rparr>"
  let ?ds = "[\<lparr>expressions = Some [(neutral, 1/10), (happy, 4/5), (sad, 1/10)]\<rparr>,
       \<lparr>expressions = Some [(neutral, 7/10), (happy, 1/5), (sad, 1/10 :: real)]\<rparr>]"
  have h: "\<forall>d \<in> set ?ds. \<exists>ex. expressions d = Some ex \<and> ex \<noteq> []" by simp
  have p: "\<not> paused ?v" and e: "\<not> ended ?v" by simp_all
  from tick_one_increment_per_face[OF p e h, of initial] show ?thesis
    by (simp add: tick_def tick_resume_def tick_begin_def Let_def updateCounts_def
          dominantExpression_def keys_def getProp_def increment_def initial_def zeroCounts_def
          count_keys_def)
qed

section \<open>Overlapping detection calls\<close>

lemma funpow_tick_begin:
  "\<not> paused v \<Longrightarrow> \<not> ended v \<Longrightarrow> pending ((tick_begin v ^^ n) s) = pending s + n"
  by (induction n) (simp_all add: tick_begin_def)

text \<open>
  C9 (as amended). The tick has no busy guard. On a video that is neither paused nor
  ended, every tick clears and redraws the canvas and issues a new detection call,
  whatever the number of calls still pending; \<open>n\<close> ticks in a row, none of whose calls
  has resolved, leave \<open>n\<close> more calls pending.
\<close>

theorem tick_begin_no_busy_guard:
  assumes "\<not> paused v" and "\<not> ended v"
  shows "pending (tick_begin v s) = pending s + 1 \<and>
     effects (tick_begin v s) =
       effects s @ [ClearRect, Save, Scale, Translate, DrawImage, Restore, DetectAllFaces] \<and>
     pending ((tick_begin v ^^ n) s) = pending s + n"
  using assms by (simp add: funpow_tick_begin) (simp add: tick_begin_def)

text \<open>
  The theorem on a tick that begins while one call is pending, and on three ticks in a
  row from the initial state.
\<close>

theorem tick_begin_no_busy_guard_witness:
  "\<not> paused \<lparr>paused = False, ended = False\<rparr> \<and> \<not> ended \<lparr>paused = False, ended = False\<rparr> \<and>
   pending (tick_begin \<lparr>paused = False, ended = False\<rparr> (initial\<lparr>pending := 1\<rparr>)) = 2 \<and>
   pending ((tick_begin \<lparr>paused = False, ended = False\<rparr> ^^ 3) initial) = 3"
  using tick_begin_no_busy_guard[of "\<lparr>paused = False, ended = False\<rparr>" "initial\<lparr>pending := 1\<rparr>" 0]
    tick_begin_no_busy_guard[of "\<lparr>paused = False, ended = False\<rparr>" initial 3]
  by (simp add: initial_def)

text \<open>
  C9 as stated fails. From the initial state, a first tick leaves one call pending; a
  second tick that begins before that call resolves draws again and issues a second
  call, so two calls are pending at once.
\<close>

theorem tick_overlap_counterexample:
  "pending (tick_begin \<lparr>paused = False, ended = False\<rparr> initial) = 1 \<and>
   pending (tick_begin \<lparr>paused = False, ended = False\<rparr>
     (tick_begin \<lparr>paused = False, ended = False\<rparr> initial)) = 2 \<and>
   effects (tick_begin \<lparr>paused = False, ended = False\<rparr>
     (tick_begin \<lparr>paused = False, ended = False\<rparr> initial)) =
     effects (tick_begin \<lparr>paused = False, ended = False\<rparr> initial) @
       [ClearRect, Save, Scale, Translate, DrawImage, Restore, DetectAllFaces]"
  by (simp add: tick_begin_def initial_def)

section \<open>Failures of the camera request\<close>

text \<open>
  C7 (as amended). Whatever exception the camera request rejects with, the camera is
  marked not ready and the permission status is set to \<^verbatim>\<open>'denied'\<close>; the state has no
  separate value for a device fault. The error message is the one of the failure's
  class, and failures of different classes get different messages.
\<close>

theorem startWebcam_failure:
  "isCameraReady (startWebcam (Inl e) s) = False \<and>
   cameraPermissionStatus (startWebcam (Inl e) s) = ''denied'' \<and>
   error (startWebcam (Inl e) s) =
     (case failure_class_of e of
        permission_denied \<Rightarrow> ''Camera access denied. Please enable camera permissions in your browser settings.''
      | device_not_found \<Rightarrow> ''No camera found. Please ensure a camera is connected and working.''
      | device_unavailable \<Rightarrow> ''Camera is already in use or not accessible. Please close other applications using the camera.''
      | other \<Rightarrow> ''Failed to access webcam: '' @ message e @ ''.'') \<and>
   (failure_class_of e \<noteq> failure_class_of e' \<longrightarrow>
      error (startWebcam (Inl e) s) \<noteq> error (startWebcam (Inl e') s'))"
  by (simp add: startWebcam_def failure_class_of_def Let_def)

text \<open>
  The theorem for a request that rejects with \<^verbatim>\<open>NotFoundError\<close>, compared with one that
  rejects with \<^verbatim>\<open>NotAllowedError\<close>.
\<close>

theorem startWebcam_failure_witness:
  "failure_class_of \<lparr>name = ''NotFoundError'', message = ''Requested device not found''\<rparr>
     \<noteq> failure_class_of \<lparr>name = ''NotAllowedError'', message = ''Permission denied''\<rparr> \<and>
   cameraPermissionStatus
     (startWebcam (Inl \<lparr>name = ''NotFoundError'', message = ''Requested device not found''\<rparr>) initial)
     = ''denied'' \<and>
   error (startWebcam (Inl \<lparr>name = ''NotFoundError'', message = ''Requested device not found''\<rparr>) initial)
     \<noteq> error (startWebcam (Inl \<lparr>name = ''NotAllowedError'', message = ''Permission denied''\<rparr>) initial)"
  using startWebcam_failure
    [of "\<lparr>name = ''NotFoundError'', message = ''Requested device not found''\<rparr>" initial
        "\<lparr>name = ''NotAllowedError'', message = ''Permission denied''\<rparr>" initial]
  by (simp add: failure_class_of_def startWebcam_def Let_def)

text \<open>
  C7 as stated fails. When the request rejects with \<^verbatim>\<open>NotFoundError\<close> (a device fault),
  the status is not an errored one: it is \<^verbatim>\<open>'denied'\<close>, the same as after a permission
  rejection.
\<close>

theorem startWebcam_device_fault_counterexample:
  "cameraPermissionStatus
     (startWebcam (Inl \<lparr>name = ''NotFoundError'', message = ''Requested device not found''\<rparr>) initial)
     \<noteq> ''errored'' \<and>
   cameraPermissionStatus
     (startWebcam (Inl \<lparr>name = ''NotFoundError'', message = ''Requested device not found''\<rparr>) initial)
     = cameraPermissionStatus
     (startWebcam (Inl \<lparr>name = ''NotAllowedError'', message = ''Permission denied''\<rparr>) initial)"
  by (simp add: startWebcam_def Let_def)

section \<open>Rendering numbers\<close>



lemma string_of_nat_example: "string_of_nat 1700000000000 = ''1700000000000''"
  by (simp add: string_of_nat.simps)

section \<open>Codec negotiation\<close>

lemma for_of_types_none:
  "\<forall>t \<in> set ts. \<not> p t \<Longrightarrow> for_of_types p ts acc = acc"
  by (induction ts) auto

lemma for_of_types_first:
  "\<exists>t \<in> set ts. p t \<Longrightarrow>
   \<exists>i < length ts. for_of_types p ts acc = ts ! i \<and> p (ts ! i) \<and> (\<forall>j < i. \<not> p (ts ! j))"
proof (induction ts)
  case Nil
  then show ?case by simp
next
  case (Cons t ts)
  show ?case
  proof (cases "p t")
    case True
    then show ?thesis by (intro exI[of _ 0]) simp
  next
    case False
    with Cons.prems have "\<exists>t \<in> set ts. p t" by auto
    from Cons.IH[OF this] obtain i where i: "i < length ts"
      "for_of_types p ts acc = ts ! i" "p (ts ! i)" "\<forall>j < i. \<not> p (ts ! j)" by blast
    have "\<forall>j < Suc i. \<not> p ((t # ts) ! j)"
      using False i(4) by (auto simp: less_Suc_eq_0_disj)
    with i False show ?thesis by (intro exI[of _ "Suc i"]) simp
  qed
qed

lemma possibleMimeTypes_nonempty: "t \<in> set possibleMimeTypes \<Longrightarrow> t \<noteq> []"
  by (auto simp: possibleMimeTypes_def)

lemma for_of_types_supported:
  assumes "\<exists>t \<in> set possibleMimeTypes. p t"
  shows "for_of_types p possibleMimeTypes [] \<noteq> []"
proof -
  from for_of_types_first[OF assms, of "[]"] obtain i where
    "i < length possibleMimeTypes" "for_of_types p possibleMimeTypes [] = possibleMimeTypes ! i"
    by blast
  then show ?thesis using possibleMimeTypes_nonempty by (metis nth_mem)
qed

lemma startRecording_ok:
  assumes "videoRef s" and "canvasRef s" and "isCameraReady s"
    and "\<exists>t \<in> set possibleMimeTypes. p t"
    and "throws (for_of_types p possibleMimeTypes []) = None"
  shows "startRecording p throws s =
     s\<lparr>effects := effects s @ [CaptureStream],
       recorders := recorders s @
         [new_MediaRecorder (for_of_types p possibleMimeTypes []) (Some 2000)],
       recordedChunksRef := [],
       recordedChunks := [],
       timers := timers s @ [length (recorders s)]\<rparr>"
  using assms(1,2,3,5) for_of_types_supported[OF assms(4)]
  by (simp add: startRecording_def Let_def)

text \<open>
  C5. With the camera ready and both elements mounted: when the platform supports some
  entry of the priority list, \<^verbatim>\<open>startRecording\<close> selects the first supported entry
  (index \<open>i\<close>, no earlier entry supported) and constructs the recorder with it, unless
  the constructor throws; when no entry is supported, all it does after capturing the
  stream is to set the unsupported-codec message: no recorder is constructed, no timer
  is set, and \<^verbatim>\<open>mediaRecorder\<close>, \<^verbatim>\<open>recording\<close> and the segment buffer stay as they were.
\<close>

theorem startRecording_codec_negotiation:
  assumes "videoRef s" and "canvasRef s" and "isCameraReady s"
  shows
    "if \<exists>t \<in> set possibleMimeTypes. isTypeSupported t
     then \<exists>i < length possibleMimeTypes.
            isTypeSupported (possibleMimeTypes ! i) \<and>
            (\<forall>j < i. \<not> isTypeSupported (possibleMimeTypes ! j)) \<and>
            recorders (startRecording isTypeSupported throws s) =
              (case throws (possibleMimeTypes ! i) of
                 None \<Rightarrow> recorders s @ [new_MediaRecorder (possibleMimeTypes ! i) (Some 2000)]
               | Some msg \<Rightarrow> recorders s)
     else startRecording isTypeSupported throws s =
            s\<lparr>effects := effects s @ [CaptureStream],
              error := ''Your browser does not support any common video recording codecs. Try updating your browser or using a different one.''\<rparr>"
proof (cases "\<exists>t \<in> set possibleMimeTypes. isTypeSupported t")
  case True
  from for_of_types_first[OF True, of "[]"] obtain i where i: "i < length possibleMimeTypes"
    "for_of_types isTypeSupported possibleMimeTypes [] = possibleMimeTypes ! i"
    "isTypeSupported (possibleMimeTypes ! i)"
    "\<forall>j < i. \<not> isTypeSupported (possibleMimeTypes ! j)" by blast
  have ne: "possibleMimeTypes ! i \<noteq> []"
    using possibleMimeTypes_nonempty i(1) by (meson nth_mem)
  have "recorders (startRecording isTypeSupported throws s) =
              (case throws (possibleMimeTypes ! i) of
                 None \<Rightarrow> recorders s @ [new_MediaRecorder (possibleMimeTypes ! i) (Some 2000)]
               | Some msg \<Rightarrow> recorders s)"
    using assms i(2) ne by (simp add: startRecording_def Let_def split: option.splits)
  with i True show ?thesis by auto
next
  case False
  then have "for_of_types isTypeSupported possibleMimeTypes [] = []"
    by (simp add: for_of_types_none)
  with False assms show ?thesis by (simp add: startRecording_def Let_def)
qed

text \<open>
  The theorem where only the fourth and fifth entries are supported (the fourth is
  selected), and where nothing is supported.
\<close>

theorem startRecording_codec_negotiation_witness:
  "videoRef (initial\<lparr>isCameraReady := True\<rparr>) \<and> canvasRef (initial\<lparr>isCameraReady := True\<rparr>) \<and>
   isCameraReady (initial\<lparr>isCameraReady := True\<rparr>) \<and>
   recorders (startRecording (\<lambda>t. t = ''video/webm; codecs=vp8'' \<or> t = ''video/webm'')
      (\<lambda>t. None) (initial\<lparr>isCameraReady := True\<rparr>)) =
     [new_MediaRecorder ''video/webm; codecs=vp8'' (Some 2000)] \<and>
   recorders (startRecording (\<lambda>t. False) (\<lambda>t. None) (initial\<lparr>isCameraReady := True\<rparr>)) = [] \<and>
   error (startRecording (\<lambda>t. False) (\<lambda>t. None) (initial\<lparr>isCameraReady := True\<rparr>)) =
     ''Your browser does not support any common video recording codecs. Try updating your browser or using a different one.''"
  using startRecording_codec_negotiation
      [of "initial\<lparr>isCameraReady := True\<rparr>"
          "\<lambda>t. t = ''video/webm; codecs=vp8'' \<or> t = ''video/webm''" "\<lambda>t. None"]
    startRecording_codec_negotiation
      [of "initial\<lparr>isCameraReady := True\<rparr>" "\<lambda>t. False" "\<lambda>t. None"]
  by (simp add: initial_def startRecording_def possibleMimeTypes_def Let_def)

section \<open>How the recorder is started\<close>

text \<open>
  C4, evaluated on the code. After a successful \<^verbatim>\<open>startRecording\<close> and its 200 ms timer,
  the recorder is recording, and 2000 stands only in the options object given to the
  constructor: \<^verbatim>\<open>recorder.start()\<close> was called without a timeslice, so the platform
  has no interval at which to deliver data during the recording.
\<close>

theorem start_without_timeslice:
  assumes "videoRef s" and "canvasRef s" and "isCameraReady s"
    and "\<exists>t \<in> set possibleMimeTypes. isTypeSupported t"
    and "throws (for_of_types isTypeSupported possibleMimeTypes []) = None"
  shows "state (recorders (timeout_start (length (recorders s))
                   (startRecording isTypeSupported throws s)) ! length (recorders s)) = ''recording'' \<and>
     options_timeslice (recorders (timeout_start (length (recorders s))
                   (startRecording isTypeSupported throws s)) ! length (recorders s)) = Some 2000 \<and>
     start_timeslice (recorders (timeout_start (length (recorders s))
                   (startRecording isTypeSupported throws s)) ! length (recorders s)) = None \<and>
     recording (timeout_start (length (recorders s)) (startRecording isTypeSupported throws s)) \<and>
     mediaRecorder (timeout_start (length (recorders s)) (startRecording isTypeSupported throws s))
       = Some (length (recorders s))"
  unfolding startRecording_ok[where p = isTypeSupported and throws = throws, OF assms]
  by (simp add: timeout_start_def Let_def new_MediaRecorder_def MediaRecorder_start_def)

text \<open>The same from the initial state with the camera ready and plain WebM supported.\<close>

theorem start_without_timeslice_witness:
  "videoRef (initial\<lparr>isCameraReady := True\<rparr>) \<and> canvasRef (initial\<lparr>isCameraReady := True\<rparr>) \<and>
   isCameraReady (initial\<lparr>isCameraReady := True\<rparr>) \<and>
   recorders (timeout_start 0
      (startRecording (\<lambda>t. t = ''video/webm'') (\<lambda>t. None) (initial\<lparr>isCameraReady := True\<rparr>))) =
     [\<lparr>options_mimeType = ''video/webm'', options_timeslice = Some 2000,
       state = ''recording'', start_timeslice = None\<rparr>]"
proof -
  let ?s = "initial\<lparr>isCameraReady := True\<rparr>"
  let ?p = "\<lambda>t. t = ''video/webm''"
  let ?th = "\<lambda>t :: string. None :: string option"
  have h: "videoRef ?s" "canvasRef ?s" "isCameraReady ?s" by (simp_all add: initial_def)
  have sup: "\<exists>t \<in> set possibleMimeTypes. ?p t" by (simp add: possibleMimeTypes_def)
  have th: "?th (for_of_types ?p possibleMimeTypes []) = None" by simp
  have l: "length (recorders ?s) = 0" by (simp add: initial_def)
  note t = start_without_timeslice[where isTypeSupported = ?p and throws = ?th, OF h sup th,
      unfolded l]
  have sel: "for_of_types ?p possibleMimeTypes [] = ''video/webm''"
    by (simp add: possibleMimeTypes_def)
  have ok: "startRecording ?p ?th ?s =
     ?s\<lparr>effects := effects ?s @ [CaptureStream],
       recorders := recorders ?s @ [new_MediaRecorder ''video/webm'' (Some 2000)],
       recordedChunksRef := [], recordedChunks := [],
       timers := timers ?s @ [length (recorders ?s)]\<rparr>"
    using startRecording_ok[where p = ?p and throws = ?th, OF h sup th] unfolding sel .
  have c: "recorders (timeout_start 0 (startRecording ?p ?th ?s)) =
     [\<lparr>options_mimeType = ''video/webm'', options_timeslice = Some 2000,
       state = ''recording'', start_timeslice = None\<rparr>]"
    unfolding ok
    by (simp add: initial_def timeout_start_def Let_def new_MediaRecorder_def
          MediaRecorder_start_def)
  from t c h show ?thesis by blast
qed

section \<open>Two starts in succession\<close>

lemma click_startRecording_ok:
  assumes "videoRef s" and "canvasRef s" and "isCameraReady s"
    and "modelsLoaded s" and "\<not> recording s"
    and "\<exists>t \<in> set possibleMimeTypes. p t"
    and "throws (for_of_types p possibleMimeTypes []) = None"
  shows "click_startRecording p throws s =
     s\<lparr>effects := effects s @ [CaptureStream],
       recorders := recorders s @
         [new_MediaRecorder (for_of_types p possibleMimeTypes []) (Some 2000)],
       recordedChunksRef := [],
       recordedChunks := [],
       timers := timers s @ [length (recorders s)]\<rparr>"
  using assms(3,4,5)
    startRecording_ok[where p = p and throws = throws, OF assms(1,2,3,6,7)]
  by (simp add: click_startRecording_def)

text \<open>
  C3, evaluated on the code. From a state where the Start button is enabled, two clicks
  before the first 200 ms timer fires both reach \<^verbatim>\<open>startRecording\<close> (the button is
  disabled by \<^verbatim>\<open>recording\<close>, which only the timer sets). Each constructs a recorder, and
  each timer finds its own fresh recorder inactive and starts it: two recorders record
  at once. Stop stops the second only; the first keeps recording and no handler can
  reach it any more. A direct call of \<^verbatim>\<open>startRecording\<close> while \<^verbatim>\<open>recording\<close> is true
  constructs a further recorder as well.
\<close>

theorem startRecording_twice_two_active:
  assumes "videoRef s" and "canvasRef s" and "isCameraReady s"
    and "modelsLoaded s" and "\<not> recording s"
    and "\<exists>t \<in> set possibleMimeTypes. isTypeSupported t"
    and "throws (for_of_types isTypeSupported possibleMimeTypes []) = None"
  shows
    "let r = length (recorders s);
         s1 = click_startRecording isTypeSupported throws s;
         s2 = click_startRecording isTypeSupported throws s1;
         s3 = timeout_start r s2;
         s4 = timeout_start (Suc r) s3;
         s5 = click_stopRecording s4
     in length (recorders s2) = r + 2 \<and>
        state (recorders s4 ! r) = ''recording'' \<and>
        state (recorders s4 ! Suc r) = ''recording'' \<and>
        recording s4 \<and> mediaRecorder s4 = Some (Suc r) \<and>
        state (recorders s5 ! r) = ''recording'' \<and>
        state (recorders s5 ! Suc r) = ''inactive'' \<and>
        \<not> recording s5 \<and>
        click_stopRecording s5 = s5 \<and>
        length (recorders (startRecording isTypeSupported throws s4)) = r + 3"
proof -
  let ?t = "for_of_types isTypeSupported possibleMimeTypes []"
  let ?r = "length (recorders s)"
  let ?s1 = "s\<lparr>effects := effects s @ [CaptureStream],
       recorders := recorders s @ [new_MediaRecorder ?t (Some 2000)],
       recordedChunksRef := [],
       recordedChunks := [],
       timers := timers s @ [?r]\<rparr>"
  have s1: "click_startRecording isTypeSupported throws s = ?s1"
    by (rule click_startRecording_ok[where p = isTypeSupported and throws = throws, OF assms])
  let ?s2 = "?s1\<lparr>effects := effects ?s1 @ [CaptureStream],
       recorders := recorders ?s1 @ [new_MediaRecorder ?t (Some 2000)],
       recordedChunksRef := [],
       recordedChunks := [],
       timers := timers ?s1 @ [length (recorders ?s1)]\<rparr>"
  have s2: "click_startRecording isTypeSupported throws ?s1 = ?s2"
    by (rule click_startRecording_ok[where p = isTypeSupported and throws = throws])
      (use assms in simp_all)
  show ?thesis
    unfolding Let_def s1 s2
    using assms(1,2,3,7) for_of_types_supported[OF assms(6)]
    by (simp add: timeout_start_def click_stopRecording_def stopRecording_def Let_def
          new_MediaRecorder_def MediaRecorder_start_def MediaRecorder_stop_def nth_append
          in_set_remove1 startRecording_def)
qed

text \<open>The same from the initial state with the camera ready and the models loaded.\<close>

theorem startRecording_twice_two_active_witness:
  "videoRef (initial\<lparr>isCameraReady := True, modelsLoaded := True\<rparr>) \<and>
   canvasRef (initial\<lparr>isCameraReady := True, modelsLoaded := True\<rparr>) \<and>
   isCameraReady (initial\<lparr>isCameraReady := True, modelsLoaded := True\<rparr>) \<and>
   modelsLoaded (initial\<lparr>isCameraReady := True, modelsLoaded := True\<rparr>) \<and>
   \<not> recording (initial\<lparr>isCameraReady := True, modelsLoaded := True\<rparr>) \<and>
   state (recorders
     (timeout_start (Suc 0) (timeout_start 0
       (click_startRecording (\<lambda>t. t = ''video/webm'') (\<lambda>t. None)
         (click_startRecording (\<lambda>t. t = ''video/webm'') (\<lambda>t. None)
           (initial\<lparr>isCameraReady := True, modelsLoaded := True\<rparr>))))) ! 0) = ''recording'' \<and>
   state (recorders
     (timeout_start (Suc 0) (timeout_start 0
       (click_startRecording (\<lambda>t. t = ''video/webm'') (\<lambda>t. None)
         (click_startRecording (\<lambda>t. t = ''video/webm'') (\<lambda>t. None)
           (initial\<lparr>isCameraReady := True, modelsLoaded := True\<rparr>))))) ! Suc 0) = ''recording'' \<and>
   state (recorders
     (click_stopRecording (timeout_start (Suc 0) (timeout_start 0
       (click_startRecording (\<lambda>t. t = ''video/webm'') (\<lambda>t. None)
         (click_startRecording (\<lambda>t. t = ''video/webm'') (\<lambda>t. None)
           (initial\<lparr>isCameraReady := True, modelsLoaded := True\<rparr>)))))) ! 0) = ''recording''"
proof -
  let ?s = "initial\<lparr>isCameraReady := True, modelsLoaded := True\<rparr>"
  let ?p = "\<lambda>t. t = ''video/webm''"
  let ?th = "\<lambda>t :: string. None :: string option"
  have h: "videoRef ?s" "canvasRef ?s" "isCameraReady ?s" "modelsLoaded ?s" "\<not> recording ?s"
    by (simp_all add: initial_def)
  have sup: "\<exists>t \<in> set possibleMimeTypes. ?p t" by (simp add: possibleMimeTypes_def)
  have th: "?th (for_of_types ?p possibleMimeTypes []) = None" by simp
  have l: "length (recorders ?s) = 0" by (simp add: initial_def)
  note t = startRecording_twice_two_active[where isTypeSupported = ?p and throws = ?th,
      OF h sup th, unfolded Let_def l]
  from t h show ?thesis by blast
qed

section \<open>The segment buffer over a session\<close>






section \<open>Download\<close>

text \<open>
  C6, evaluated on the code. With an artifact present, \<^verbatim>\<open>downloadVideo\<close> of
  \<^verbatim>\<open>src/app/page.js\<close> creates the anchor with the generated file name, appends and
  removes it, revokes the URL and clears \<^verbatim>\<open>videoUrl\<close>, and never clicks the anchor: no
  save action is triggered and the artifact is gone. The variant with the expression
  statistics makes the same calls with the click between append and remove.
\<close>

theorem downloadVideo_page_no_click:
  assumes "videoUrl s \<noteq> []"
  shows
    "effects (downloadVideo_page now s) =
       effects s @
         [CreateElement ''a'', SetHref (videoUrl s),
          SetDownload (''face-tracking-video-'' @ string_of_nat now @ ''.webm''),
          AppendChild, RemoveChild, RevokeObjectURL (videoUrl s)] \<and>
     Click \<notin> set (drop (length (effects s)) (effects (downloadVideo_page now s))) \<and>
     videoUrl (downloadVideo_page now s) = [] \<and>
     map_of (objectURLs (downloadVideo_page now s)) (videoUrl s) = None \<and>
     effects (downloadVideo now s) =
       effects s @
         [CreateElement ''a'', SetHref (videoUrl s),
          SetDownload (''face-tracking-video-'' @ string_of_nat now @ ''.webm''),
          AppendChild, Click, RemoveChild, RevokeObjectURL (videoUrl s)]"
proof -
  have "map_of (filter (\<lambda>(u, b). u \<noteq> videoUrl s) (objectURLs s)) (videoUrl s) = None"
    by (induction "objectURLs s") (auto simp: map_of_eq_None_iff)
  with assms show ?thesis
    by (simp add: downloadVideo_page_def downloadVideo_def revokeObjectURL_def Let_def)
qed

text \<open>The same for an artifact registered as \<^verbatim>\<open>blob:0\<close>, at time 1700000000000.\<close>

theorem downloadVideo_page_no_click_witness:
  "videoUrl (initial\<lparr>videoUrl := ''blob:0'',
       objectURLs := [(''blob:0'', \<lparr>bytes = [1, 2, 3], btype = ''video/webm''\<rparr>)]\<rparr>) \<noteq> [] \<and>
   effects (downloadVideo_page 1700000000000
     (initial\<lparr>videoUrl := ''blob:0'',
       objectURLs := [(''blob:0'', \<lparr>bytes = [1, 2, 3], btype = ''video/webm''\<rparr>)]\<rparr>)) =
     [CreateElement ''a'', SetHref ''blob:0'',
      SetDownload ''face-tracking-video-1700000000000.webm'',
      AppendChild, RemoveChild, RevokeObjectURL ''blob:0''] \<and>
   videoUrl (downloadVideo_page 1700000000000
     (initial\<lparr>videoUrl := ''blob:0'',
       objectURLs := [(''blob:0'', \<lparr>bytes = [1, 2, 3], btype = ''video/webm''\<rparr>)]\<rparr>)) = [] \<and>
   objectURLs (downloadVideo_page 1700000000000
     (initial\<lparr>videoUrl := ''blob:0'',
       objectURLs := [(''blob:0'', \<lparr>bytes = [1, 2, 3], btype = ''video/webm''\<rparr>)]\<rparr>)) = []"
proof -
  let ?s = "initial\<lparr>videoUrl := ''blob:0'',
       objectURLs := [(''blob:0'', \<lparr>bytes = [1, 2, 3], btype = ''video/webm''\<rparr>)]\<rparr>"
  have h: "videoUrl ?s \<noteq> []" by simp
  have u: "videoUrl ?s = ''blob:0''" and e: "effects ?s = []" by (simp_all add: initial_def)
  from downloadVideo_page_no_click[OF h, of 1700000000000]
  have "effects (downloadVideo_page 1700000000000 ?s) =
       [CreateElement ''a'', SetHref ''blob:0'',
        SetDownload ''face-tracking-video-1700000000000.webm'',
        AppendChild, RemoveChild, RevokeObjectURL ''blob:0'']"
    and "videoUrl (downloadVideo_page 1700000000000 ?s) = []"
    unfolding u e string_of_nat_example by simp_all
  moreover have "objectURLs (downloadVideo_page 1700000000000 ?s) = []"
    by (simp add: downloadVideo_page_def revokeObjectURL_def Let_def)
  ultimately show ?thesis using h by blast
qed

end
